theory Spec2Isabelle
  imports Main
begin

section \<open>The wake-lock controller of src/use-wake-lock.ts\<close>

text \<open>
  The hook \<^verbatim>\<open>useWakeLock\<close> keeps a reference \<^verbatim>\<open>wakeLock.current\<close> to the platform's
  sentinel, a state cell \<^verbatim>\<open>released\<close>, and three asynchronous operations.  An asynchronous
  function is modelled by the part it runs synchronously when called (\<open>_call\<close>) and the part
  it runs when the promise it awaits settles (\<open>_resume\<close>); in between, the awaited promise is
  an entry of \<open>pending\<close>.  The platform, the document and the application are the
  environment: they choose the next \<open>action\<close>.  Every call the hook makes to the platform,
  to the document or to a caller-supplied callback is appended to \<open>trace\<close>, in program order.

  The component renders many times. Each render makes a new function object
  \<^verbatim>\<open>handleVisibilityReturn\<close> (it is not memoized), and \<^verbatim>\<open>useCallback\<close> keeps the
  \<^verbatim>\<open>request\<close> and \<^verbatim>\<open>destroy\<close> of an earlier render until one of their dependencies is a new
  object. A function closes over the variables of the render that made it, so the document
  may see several listener objects: \<open>listeners\<close> is the list of those registered. A
  caller-supplied callback returns or throws, and does not call back into the hook; what
  it does is the same at every render, also when it is a new function object.
\<close>

subsection \<open>Data\<close>

datatype wake_lock_type = Screen

datatype visibility_state = Visible | Hidden

datatype js_error = JsError nat

type_synonym release_event = nat

text \<open>A caller-supplied callback of \<^verbatim>\<open>WakeLockOptions\<close>: what it does when invoked.\<close>

datatype callback = Returns | Throws js_error

record options =
  onError :: "callback option"
  onRequest :: "callback option"
  onRelease :: "callback option"
  onDestroy :: "callback option"

text \<open>
  A \<^verbatim>\<open>WakeLockSentinel\<close>: its \<^verbatim>\<open>type\<close>, its \<^verbatim>\<open>released\<close> field (\<open>None\<close> where the
  platform does not provide it) and whether the hook has assigned its \<^verbatim>\<open>onrelease\<close>.
\<close>

record sentinel =
  wl_type :: wake_lock_type
  sentinel_released :: "bool option"
  onrelease :: bool

text \<open>The five messages of \<^verbatim>\<open>warn\<close>, in the order of the source.\<close>

datatype warning =
    RequestUnsupported
  | ReleaseUnsupported
  | ReleaseBeforeRequest
  | DestroyUnsupported
  | DestroyBeforeRequest

text \<open>Who holds the promise an operation returns: the application, or nobody (a call
  the hook makes itself and does not await).\<close>

datatype origin = Caller | Internal

datatype operation = Request | Release | Destroy

datatype event =
    Warn warning
  | WakeLockRequest wake_lock_type
  | SentinelRelease nat
  | AddListener nat
  | RemoveListener nat
  | SetCurrent "nat option"
  | SetReleased bool
  | OnRequest
  | OnError js_error
  | OnRelease release_event
  | OnDestroy
  | Settled origin operation "js_error + unit"

text \<open>
  Renders are numbered. A \<^verbatim>\<open>request\<close> function is known by the render that made it
  (\<open>rq_render\<close>): the \<^verbatim>\<open>handleVisibilityReturn\<close> it registers on line 46 is that render's.
  The \<^verbatim>\<open>destroy\<close> it calls on line 34 is the one \<^verbatim>\<open>useCallback\<close> returned in that render,
  known by the render that made it (\<open>rq_destroy\<close>). A \<^verbatim>\<open>destroy\<close> function removes, on
  line 96, the \<^verbatim>\<open>handleVisibilityReturn\<close> of the render that made it.

  The \<^verbatim>\<open>handleVisibilityReturn\<close> of a render calls the \<^verbatim>\<open>request\<close> of that render; the only
  handlers ever registered are those of renders that made a \<^verbatim>\<open>request\<close>, so a registered
  handler is kept as the \<^verbatim>\<open>request\<close> function it calls, and \<open>rq_render\<close> is its identity.
\<close>

record request_fn =
  rq_render :: nat
  rq_destroy :: nat

text \<open>What a suspended operation awaits, and which function is suspended.\<close>

datatype awaiting =
    AwaitAcquire origin wake_lock_type request_fn
  | AwaitRelease origin
  | AwaitDestroy origin nat

record state =
  isSupported :: bool
  released :: "bool option"
  current :: "nat option"
  sentinels :: "sentinel list"
  listeners :: "request_fn list"
  visibilityState :: visibility_state
  render :: nat
  request_now :: request_fn
  destroy_now :: nat
  pending :: "(nat \<times> awaiting) list"
  next_pid :: nat
  trace :: "event list"

text \<open>The first render: its \<^verbatim>\<open>request\<close> and \<^verbatim>\<open>destroy\<close> are the ones the application holds.\<close>

definition init :: "bool \<Rightarrow> state" where
  "init supported =
     \<lparr>isSupported = supported, released = None, current = None, sentinels = [],
      listeners = [], visibilityState = Visible, render = 0,
      request_now = \<lparr>rq_render = 0, rq_destroy = 0\<rparr>, destroy_now = 0,
      pending = [], next_pid = 0, trace = []\<rparr>"

subsection \<open>Primitives\<close>

definition emit :: "event \<Rightarrow> state \<Rightarrow> state" where
  "emit e s = s\<lparr>trace := trace s @ [e]\<rparr>"

text \<open>The promise of an operation settles: fulfilled (\<open>Inr\<close>) or rejected (\<open>Inl\<close>).\<close>

definition settle :: "origin \<Rightarrow> operation \<Rightarrow> js_error + unit \<Rightarrow> state \<Rightarrow> state" where
  "settle og opn r s = emit (Settled og opn r) s"

definition suspend :: "awaiting \<Rightarrow> state \<Rightarrow> state" where
  "suspend k s = s\<lparr>pending := (next_pid s, k) # pending s, next_pid := Suc (next_pid s)\<rparr>"

definition drop_pending :: "nat \<Rightarrow> state \<Rightarrow> state" where
  "drop_pending pid s = s\<lparr>pending := filter (\<lambda>p. fst p \<noteq> pid) (pending s)\<rparr>"

definition setReleased :: "bool \<Rightarrow> state \<Rightarrow> state" where
  "setReleased b s = emit (SetReleased b) (s\<lparr>released := Some b\<rparr>)"

text \<open>The value of \<^verbatim>\<open>wakeLock.current && wakeLock.current.released\<close>, with \<open>None\<close> for
  \<^verbatim>\<open>null\<close> and \<^verbatim>\<open>undefined\<close>.\<close>

definition current_released :: "state \<Rightarrow> bool option" where
  "current_released s =
     (case current s of
        None \<Rightarrow> None
      | Some h \<Rightarrow>
          if h < length (sentinels s) then sentinel_released (sentinels s ! h) else None)"

text \<open>JavaScript's \<^verbatim>\<open>v || d\<close> for such a value: \<^verbatim>\<open>v\<close> where it is truthy, else \<^verbatim>\<open>d\<close>.\<close>

definition js_or :: "bool option \<Rightarrow> bool \<Rightarrow> bool" where
  "js_or v d = (if v = Some True then True else d)"

text \<open>\<^verbatim>\<open>cb && cb(...)\<close>: the call is recorded as \<open>e\<close>; the result is what it threw.\<close>

definition invoke :: "callback option \<Rightarrow> event \<Rightarrow> state \<Rightarrow> js_error option \<times> state" where
  "invoke cb e s =
     (case cb of
        None \<Rightarrow> (None, s)
      | Some Returns \<Rightarrow> (None, emit e s)
      | Some (Throws x) \<Rightarrow> (Some x, emit e s))"

definition thrown :: "js_error option \<Rightarrow> js_error + unit" where
  "thrown x = (case x of None \<Rightarrow> Inr () | Some e \<Rightarrow> Inl e)"

text \<open>\<^verbatim>\<open>document.addEventListener\<close> ignores a function object that is already registered;
  \<^verbatim>\<open>document.removeEventListener\<close> removes the given function object, if registered.\<close>

definition addEventListener :: "request_fn \<Rightarrow> state \<Rightarrow> state" where
  "addEventListener f s =
     emit (AddListener (rq_render f))
       (s\<lparr>listeners :=
            (if rq_render f \<in> set (map rq_render (listeners s)) then listeners s
             else listeners s @ [f])\<rparr>)"

definition removeEventListener :: "nat \<Rightarrow> state \<Rightarrow> state" where
  "removeEventListener d s =
     emit (RemoveListener d)
       (s\<lparr>listeners := filter (\<lambda>f. rq_render f \<noteq> d) (listeners s)\<rparr>)"

subsection \<open>destroy\<close>

definition destroy_call :: "origin \<Rightarrow> nat \<Rightarrow> state \<Rightarrow> state" where
  "destroy_call og d s =
     (let isWakeLockUndefined = (current s = None) in
      if \<not> isSupported s then settle og Destroy (Inr ()) (emit (Warn DestroyUnsupported) s)
      else if isWakeLockUndefined then
        settle og Destroy (Inr ()) (emit (Warn DestroyBeforeRequest) s)
      else
        (case current s of
           None \<Rightarrow> settle og Destroy (Inr ()) s
         | Some h \<Rightarrow> suspend (AwaitDestroy og d) (emit (SentinelRelease h) s)))"

text \<open>The \<^verbatim>\<open>.then\<close> callback runs when \<^verbatim>\<open>release()\<close> fulfils; a rejection skips it and
  rejects the promise of \<^verbatim>\<open>destroy\<close>.\<close>

definition destroy_resume ::
  "options \<Rightarrow> origin \<Rightarrow> nat \<Rightarrow> js_error + unit \<Rightarrow> state \<Rightarrow> state" where
  "destroy_resume opts og d r s =
     (case r of
        Inl e \<Rightarrow> settle og Destroy (Inl e) s
      | Inr u \<Rightarrow>
          (let s1 = removeEventListener d s;
               s2 = emit (SetCurrent None) (s1\<lparr>current := None\<rparr>);
               (x, s3) = invoke (onDestroy opts) OnDestroy s2
           in settle og Destroy (thrown x) s3))"

subsection \<open>release\<close>

definition release_call :: "origin \<Rightarrow> state \<Rightarrow> state" where
  "release_call og s =
     (let isWakeLockUndefined = (current s = None) in
      if \<not> isSupported s then settle og Release (Inr ()) (emit (Warn ReleaseUnsupported) s)
      else if isWakeLockUndefined then
        settle og Release (Inr ()) (emit (Warn ReleaseBeforeRequest) s)
      else
        (case current s of
           None \<Rightarrow> settle og Release (Inr ()) s
         | Some h \<Rightarrow> suspend (AwaitRelease og) (emit (SentinelRelease h) s)))"

definition release_resume :: "origin \<Rightarrow> js_error + unit \<Rightarrow> state \<Rightarrow> state" where
  "release_resume og r s = settle og Release r s"

subsection \<open>request\<close>

text \<open>\<^verbatim>\<open>destroy()\<close> is called and not awaited: its synchronous part runs, then
  \<^verbatim>\<open>navigator.wakeLock.request(type)\<close> is called.\<close>

definition request_call :: "origin \<Rightarrow> wake_lock_type \<Rightarrow> request_fn \<Rightarrow> state \<Rightarrow> state" where
  "request_call og k f s =
     (let isWakeLockAlreadyDefined = (current s \<noteq> None) in
      if \<not> isSupported s then settle og Request (Inr ()) (emit (Warn RequestUnsupported) s)
      else
        (let s1 = (if isWakeLockAlreadyDefined then destroy_call Internal (rq_destroy f) s else s)
         in suspend (AwaitAcquire og k f) (emit (WakeLockRequest k) s1)))"

text \<open>The \<^verbatim>\<open>catch\<close> block.\<close>

definition catch_error :: "options \<Rightarrow> origin \<Rightarrow> js_error \<Rightarrow> state \<Rightarrow> state" where
  "catch_error opts og e s =
     (let (x, s1) = invoke (onError opts) (OnError e) s
      in settle og Request (thrown x) s1)"

text \<open>The rest of the \<^verbatim>\<open>try\<close> block, once the platform has answered: with a new sentinel
  whose \<^verbatim>\<open>released\<close> field reads \<open>rel\<close>, or with an error.\<close>

definition request_resume ::
  "options \<Rightarrow> origin \<Rightarrow> wake_lock_type \<Rightarrow> request_fn \<Rightarrow> js_error + bool option \<Rightarrow>
     state \<Rightarrow> state" where
  "request_resume opts og k f r s =
     (case r of
        Inl e \<Rightarrow> catch_error opts og e s
      | Inr rel \<Rightarrow>
          (let h = length (sentinels s);
               s1 = emit (SetCurrent (Some h))
                      (s\<lparr>sentinels := sentinels s @
                           [\<lparr>wl_type = k, sentinel_released = rel, onrelease = False\<rparr>],
                         current := Some h\<rparr>);
               s2 = s1\<lparr>sentinels := (sentinels s1)[h := (sentinels s1 ! h)\<lparr>onrelease := True\<rparr>]\<rparr>;
               s3 = addEventListener f s2;
               (x, s4) = invoke (onRequest opts) OnRequest s3
           in case x of
                Some e \<Rightarrow> catch_error opts og e s4
              | None \<Rightarrow>
                  settle og Request (Inr ())
                    (setReleased (js_or (current_released s4) False) s4)))"

text \<open>The function assigned to \<^verbatim>\<open>onrelease\<close>. An exception of \<^verbatim>\<open>onRelease\<close> goes to the
  event dispatcher, not to the hook.\<close>

definition onrelease_handler :: "options \<Rightarrow> release_event \<Rightarrow> state \<Rightarrow> state" where
  "onrelease_handler opts e s =
     snd (invoke (onRelease opts) (OnRelease e)
            (setReleased (js_or (current_released s) True) s))"

subsection \<open>handleVisibilityReturn\<close>

text \<open>The handler of the render that made the \<^verbatim>\<open>request\<close> function \<open>f\<close>: it calls \<open>f\<close>.\<close>

definition handleVisibilityReturn :: "request_fn \<Rightarrow> state \<Rightarrow> state" where
  "handleVisibilityReturn f s =
     (if visibilityState s = Visible \<and> current s \<noteq> None \<and> current_released s = Some True
      then request_call Internal Screen f s
      else s)"

text \<open>The document runs the registered listeners, in the order of their registration.\<close>

fun dispatch :: "request_fn list \<Rightarrow> state \<Rightarrow> state" where
  "dispatch [] s = s"
| "dispatch (f # fs) s = dispatch fs (handleVisibilityReturn f s)"

text \<open>The \<^verbatim>\<open>type\<close> the hook returns.\<close>

definition type_of_lock :: "state \<Rightarrow> wake_lock_type option" where
  "type_of_lock s =
     (case current s of
        None \<Rightarrow> None
      | Some h \<Rightarrow> if h < length (sentinels s) then Some (wl_type (sentinels s ! h)) else None)"

subsection \<open>The environment\<close>

text \<open>
  The application calls an operation; the platform settles an awaited promise (named by
  its number in \<open>pending\<close>), or releases a sentinel (its \<^verbatim>\<open>released\<close> field then reads
  the given value, and its release event is dispatched); the document changes visibility;
  the component renders again, where the first flag says that one of \<^verbatim>\<open>onRequest\<close>,
  \<^verbatim>\<open>onError\<close>, \<^verbatim>\<open>onRelease\<close> is a new function object (the dependencies of \<^verbatim>\<open>request\<close>,
  line 54) and the second that \<^verbatim>\<open>onDestroy\<close> is (the dependency of \<^verbatim>\<open>destroy\<close>, line 100).
  The application calls the functions the latest render returned.
\<close>

datatype action =
    CallRequest wake_lock_type
  | CallRelease
  | CallDestroy
  | AcquireSettles nat "js_error + bool option"
  | ReleaseSettles nat "js_error + unit"
  | PlatformRelease nat "bool option" release_event
  | VisibilityChange visibility_state
  | Render bool bool

fun step :: "options \<Rightarrow> action \<Rightarrow> state \<Rightarrow> state" where
  "step opts (CallRequest k) s = request_call Caller k (request_now s) s"
| "step opts CallRelease s = release_call Caller s"
| "step opts CallDestroy s = destroy_call Caller (destroy_now s) s"
| "step opts (AcquireSettles pid r) s =
     (case map_of (pending s) pid of
        Some (AwaitAcquire og k f) \<Rightarrow> request_resume opts og k f r (drop_pending pid s)
      | _ \<Rightarrow> s)"
| "step opts (ReleaseSettles pid r) s =
     (case map_of (pending s) pid of
        Some (AwaitRelease og) \<Rightarrow> release_resume og r (drop_pending pid s)
      | Some (AwaitDestroy og d) \<Rightarrow> destroy_resume opts og d r (drop_pending pid s)
      | _ \<Rightarrow> s)"
| "step opts (PlatformRelease h v e) s =
     (if h < length (sentinels s) then
        (let s1 = s\<lparr>sentinels := (sentinels s)[h := (sentinels s ! h)\<lparr>sentinel_released := v\<rparr>]\<rparr>
         in if onrelease (sentinels s ! h) then onrelease_handler opts e s1 else s1)
      else s)"
| "step opts (VisibilityChange v) s =
     (let s1 = s\<lparr>visibilityState := v\<rparr>
      in dispatch (listeners s1) s1)"
| "step opts (Render rq ds) s =
     (let n = Suc (render s);
          d = (if ds then n else destroy_now s);
          f = (if rq then \<lparr>rq_render = n, rq_destroy = d\<rparr> else request_now s)
      in s\<lparr>render := n, destroy_now := d, request_now := f\<rparr>)"

fun run :: "options \<Rightarrow> action list \<Rightarrow> state \<Rightarrow> state" where
  "run opts [] s = s"
| "run opts (a # as) s = run opts as (step opts a s)"

text \<open>Options with no callback, as in \<^verbatim>\<open>useWakeLock()\<close>.\<close>

definition no_options :: options where
  "no_options = \<lparr>onError = None, onRequest = None, onRelease = None, onDestroy = None\<rparr>"

text \<open>A controller that holds its first sentinel: \<^verbatim>\<open>request('screen')\<close> was called with
  the capability present, and the platform answered with a sentinel that is not released.\<close>

definition held :: state where
  "held = run no_options [CallRequest Screen, AcquireSettles 0 (Inr (Some False))] (init True)"



section \<open>Properties\<close>

lemmas prims = emit_def settle_def suspend_def drop_pending_def setReleased_def
  current_released_def js_or_def invoke_def thrown_def addEventListener_def
  removeEventListener_def

lemmas ops = destroy_call_def destroy_resume_def release_call_def release_resume_def
  request_call_def request_resume_def catch_error_def onrelease_handler_def
  handleVisibilityReturn_def

lemma held_eq:
  "held =
     \<lparr>isSupported = True, released = Some False, current = Some 0,
      sentinels = [\<lparr>wl_type = Screen, sentinel_released = Some False, onrelease = True\<rparr>],
      listeners = [\<lparr>rq_render = 0, rq_destroy = 0\<rparr>], visibilityState = Visible,
      render = 0, request_now = \<lparr>rq_render = 0, rq_destroy = 0\<rparr>, destroy_now = 0,
      pending = [], next_pid = 1,
      trace = [WakeLockRequest Screen, SetCurrent (Some 0), AddListener 0, SetReleased False,
               Settled Caller Request (Inr ())]\<rparr>"
  by (simp add: held_def init_def no_options_def ops prims)

subsection \<open>What a visibility change leaves alone\<close>

lemma request_call_frame:
  "released (request_call og k f s) = released s \<and>
   current (request_call og k f s) = current s \<and>
   sentinels (request_call og k f s) = sentinels s \<and>
   listeners (request_call og k f s) = listeners s \<and>
   visibilityState (request_call og k f s) = visibilityState s \<and>
   isSupported (request_call og k f s) = isSupported s"
  by (simp add: ops prims split: option.splits)

lemma dispatch_frame:
  "released (dispatch fs s) = released s \<and>
   current (dispatch fs s) = current s \<and>
   sentinels (dispatch fs s) = sentinels s \<and>
   listeners (dispatch fs s) = listeners s \<and>
   visibilityState (dispatch fs s) = visibilityState s \<and>
   isSupported (dispatch fs s) = isSupported s"
proof (induction fs arbitrary: s)
  case Nil
  then show ?case by simp
next
  case (Cons f fs)
  have "handleVisibilityReturn f s = s \<or>
      handleVisibilityReturn f s = request_call Internal Screen f s"
    by (simp add: handleVisibilityReturn_def)
  then show ?case
    using Cons.IH [of "handleVisibilityReturn f s"] request_call_frame [of Internal Screen f s]
    by auto
qed

lemma dispatch_not_held: "current s = None \<Longrightarrow> dispatch fs s = s"
  by (induction fs arbitrary: s) (simp_all add: handleVisibilityReturn_def)

lemma request_call_no_rejection:
  "Settled og opn (Inl e) \<in> set (trace (request_call og' k f s)) \<Longrightarrow>
   Settled og opn (Inl e) \<in> set (trace s)"
  by (auto simp: ops prims split: option.splits if_splits)

lemma dispatch_no_rejection:
  "Settled og opn (Inl e) \<in> set (trace (dispatch fs s)) \<Longrightarrow>
   Settled og opn (Inl e) \<in> set (trace s)"
proof (induction fs arbitrary: s)
  case Nil
  then show ?case by simp
next
  case (Cons f fs)
  from Cons.prems have "Settled og opn (Inl e) \<in> set (trace (handleVisibilityReturn f s))"
    using Cons.IH by simp
  then show ?case
    by (auto simp: handleVisibilityReturn_def split: if_splits dest: request_call_no_rejection)
qed

subsection \<open>The release callback\<close>

text \<open>
  C2 (as amended). Every firing of the function assigned to \<^verbatim>\<open>onrelease\<close> sets
  \<^verbatim>\<open>released\<close> to true, whatever the \<^verbatim>\<open>released\<close> field of the current sentinel reads
  (true, false or unset) and also when there is no current sentinel; the caller's
  \<^verbatim>\<open>onRelease\<close>, if provided, is then invoked with the event.
\<close>

theorem onrelease_sets_true:
  "released (onrelease_handler opts e s) = Some True \<and>
   trace (onrelease_handler opts e s) =
     trace s @ SetReleased True #
       (case onRelease opts of None \<Rightarrow> [] | Some c \<Rightarrow> [OnRelease e])"
  by (simp add: onrelease_handler_def prims split: option.splits callback.splits)

text \<open>C2 as stated fails: the field of the current sentinel reads false when the callback
  fires, and \<^verbatim>\<open>released\<close> becomes true, not false.\<close>

theorem onrelease_false_reading_collapses:
  "current_released (step no_options (PlatformRelease 0 (Some False) 7) held) = Some False \<and>
   released (step no_options (PlatformRelease 0 (Some False) 7) held) = Some True"
  by (simp add: held_eq no_options_def onrelease_handler_def prims)

subsection \<open>release\<close>

text \<open>
  C7. A call to \<^verbatim>\<open>release\<close> with the capability present and a sentinel held calls the
  sentinel's \<^verbatim>\<open>release()\<close> and suspends until it settles; when it settles, in whatever
  state \<open>s'\<close> the controller then is, the promise of \<^verbatim>\<open>release\<close> settles alike. Nothing
  else changes at either moment: the reference is kept, the listeners stay as they were,
  \<^verbatim>\<open>released\<close> and the sentinels are untouched, and \<^verbatim>\<open>onDestroy\<close> is not invoked.
\<close>

theorem release_frame:
  assumes "isSupported s" and "current s = Some h"
  shows "step opts CallRelease s =
           s\<lparr>pending := (next_pid s, AwaitRelease Caller) # pending s,
             next_pid := Suc (next_pid s),
             trace := trace s @ [SentinelRelease h]\<rparr> \<and>
         (map_of (pending s') pid = Some (AwaitRelease og) \<longrightarrow>
            step opts (ReleaseSettles pid r) s' =
              s'\<lparr>pending := filter (\<lambda>p. fst p \<noteq> pid) (pending s'),
                 trace := trace s' @ [Settled og Release r]\<rparr>)"
  using assms by (simp add: ops prims)

theorem release_frame_witness:
  "isSupported held \<and> current held = Some 0 \<and>
   map_of (pending (step no_options CallRelease held)) 1 = Some (AwaitRelease Caller) \<and>
   step no_options CallRelease held =
     held\<lparr>pending := [(1, AwaitRelease Caller)], next_pid := 2,
          trace := trace held @ [SentinelRelease 0]\<rparr> \<and>
   step no_options (ReleaseSettles 1 (Inr ())) (step no_options CallRelease held) =
     held\<lparr>next_pid := 2,
          trace := trace held @ [SentinelRelease 0, Settled Caller Release (Inr ())]\<rparr>"
proof -
  have a: "isSupported held" and b: "current held = Some 0"
    by (simp_all add: held_eq)
  have c: "map_of (pending (step no_options CallRelease held)) 1 = Some (AwaitRelease Caller)"
    by (simp add: held_eq ops prims)
  from release_frame [OF a b, of no_options "step no_options CallRelease held" 1 Caller "Inr ()"]
    a b c
  show ?thesis
    by (simp add: held_eq no_options_def ops prims)
qed

subsection \<open>destroy\<close>

text \<open>What \<^verbatim>\<open>destroy\<close> does with the capability present and a sentinel held: it calls the
  sentinel's \<^verbatim>\<open>release()\<close> and suspends; when that fulfils, in whatever state \<open>s'\<close>, it
  removes the handler of its own render \<open>d\<close> from the listeners, clears the reference and
  invokes \<^verbatim>\<open>onDestroy\<close> (if provided) once, in that order.\<close>

lemma destroy_own_handler:
  assumes "isSupported s" and "current s = Some h"
  shows "step opts CallDestroy s =
           s\<lparr>pending := (next_pid s, AwaitDestroy Caller (destroy_now s)) # pending s,
             next_pid := Suc (next_pid s),
             trace := trace s @ [SentinelRelease h]\<rparr>"
    and "map_of (pending s') pid = Some (AwaitDestroy og d) \<Longrightarrow>
           step opts (ReleaseSettles pid (Inr ())) s' =
             s'\<lparr>listeners := filter (\<lambda>f. rq_render f \<noteq> d) (listeners s'), current := None,
                pending := filter (\<lambda>p. fst p \<noteq> pid) (pending s'),
                trace := trace s' @ [RemoveListener d, SetCurrent None] @
                  (case onDestroy opts of None \<Rightarrow> [] | Some c \<Rightarrow> [OnDestroy]) @
                  [Settled og Destroy
                     (case onDestroy opts of Some (Throws x) \<Rightarrow> Inl x | _ \<Rightarrow> Inr ())]\<rparr>"
  using assms by (simp_all add: ops prims split: option.splits callback.splits)

text \<open>
  C6 (the code at the failing input). The application passes \<^verbatim>\<open>onDestroy\<close> inline, so it
  is a new function object at every render. \<^verbatim>\<open>request\<close> of the first render registers
  that render's handler, the component renders again (\<^verbatim>\<open>released\<close> has changed), and the
  application calls the \<^verbatim>\<open>destroy\<close> of the second render. The sentinel's \<^verbatim>\<open>release()\<close> is
  called and fulfils, the reference is cleared and \<^verbatim>\<open>onDestroy\<close> is invoked once, but
  \<^verbatim>\<open>removeEventListener\<close> is given the handler of the second render, which was never
  registered: the registered handler stays. Without the second render it is removed.
\<close>

theorem destroy_leaves_listener:
  "trace (run (no_options\<lparr>onDestroy := Some Returns\<rparr>)
            [Render False True, CallDestroy, ReleaseSettles 1 (Inr ())] held) =
     trace held @
       [SentinelRelease 0, RemoveListener 1, SetCurrent None, OnDestroy,
        Settled Caller Destroy (Inr ())] \<and>
   current (run (no_options\<lparr>onDestroy := Some Returns\<rparr>)
              [Render False True, CallDestroy, ReleaseSettles 1 (Inr ())] held) = None \<and>
   listeners (run (no_options\<lparr>onDestroy := Some Returns\<rparr>)
                [Render False True, CallDestroy, ReleaseSettles 1 (Inr ())] held) =
     [\<lparr>rq_render = 0, rq_destroy = 0\<rparr>] \<and>
   listeners (run (no_options\<lparr>onDestroy := Some Returns\<rparr>)
                [CallDestroy, ReleaseSettles 1 (Inr ())] held) = []"
  by (simp add: held_eq no_options_def ops prims)

subsection \<open>request: the failure paths\<close>

text \<open>
  C8. When \<^verbatim>\<open>request\<close> is called with the capability present and no sentinel held, and
  the platform rejects the acquisition with \<open>e\<close>, then \<^verbatim>\<open>onError\<close> (if provided) is invoked
  once, with \<open>e\<close>; the reference stays empty and \<^verbatim>\<open>released\<close> keeps its value (the listeners
  and the sentinels too). More generally, in whatever state \<open>s'\<close> the rejection of a pending
  acquisition arrives, only \<^verbatim>\<open>onError\<close> is invoked: the reference and \<^verbatim>\<open>released\<close> are
  not written.
\<close>

theorem acquire_rejected:
  assumes "isSupported s" and "current s = None"
  shows "run opts [CallRequest k, AcquireSettles (next_pid s) (Inl e)] s =
           s\<lparr>pending := filter (\<lambda>p. fst p \<noteq> next_pid s) (pending s),
             next_pid := Suc (next_pid s),
             trace := trace s @ [WakeLockRequest k] @
               (case onError opts of None \<Rightarrow> [] | Some c \<Rightarrow> [OnError e]) @
               [Settled Caller Request
                  (case onError opts of Some (Throws x) \<Rightarrow> Inl x | _ \<Rightarrow> Inr ())]\<rparr> \<and>
         (map_of (pending s') pid = Some (AwaitAcquire og k f) \<longrightarrow>
            step opts (AcquireSettles pid (Inl e)) s' =
              s'\<lparr>pending := filter (\<lambda>p. fst p \<noteq> pid) (pending s'),
                 trace := trace s' @
                   (case onError opts of None \<Rightarrow> [] | Some c \<Rightarrow> [OnError e]) @
                   [Settled og Request
                      (case onError opts of Some (Throws x) \<Rightarrow> Inl x | _ \<Rightarrow> Inr ())]\<rparr>)"
  using assms by (simp add: ops prims split: option.splits callback.splits)

theorem acquire_rejected_witness:
  "isSupported (init True) \<and> current (init True) = None \<and>
   map_of (pending (step (no_options\<lparr>onError := Some Returns\<rparr>) (CallRequest Screen) (init True))) 0
     = Some (AwaitAcquire Caller Screen \<lparr>rq_render = 0, rq_destroy = 0\<rparr>) \<and>
   run (no_options\<lparr>onError := Some Returns\<rparr>)
       [CallRequest Screen, AcquireSettles (next_pid (init True)) (Inl (JsError 1))] (init True) =
     (init True)\<lparr>next_pid := 1,
       trace := [WakeLockRequest Screen, OnError (JsError 1), Settled Caller Request (Inr ())]\<rparr> \<and>
   step (no_options\<lparr>onError := Some Returns\<rparr>) (AcquireSettles 0 (Inl (JsError 1)))
     (step (no_options\<lparr>onError := Some Returns\<rparr>) (CallRequest Screen) (init True)) =
     (init True)\<lparr>next_pid := 1,
       trace := [WakeLockRequest Screen, OnError (JsError 1), Settled Caller Request (Inr ())]\<rparr>"
proof -
  have a: "isSupported (init True)" and b: "current (init True) = None"
    by (simp_all add: init_def)
  have c: "map_of (pending (step (no_options\<lparr>onError := Some Returns\<rparr>) (CallRequest Screen)
      (init True))) 0 = Some (AwaitAcquire Caller Screen \<lparr>rq_render = 0, rq_destroy = 0\<rparr>)"
    by (simp add: init_def ops prims)
  from acquire_rejected [OF a b, of "no_options\<lparr>onError := Some Returns\<rparr>" Screen "JsError 1"
      "step (no_options\<lparr>onError := Some Returns\<rparr>) (CallRequest Screen) (init True)" 0 Caller
      "\<lparr>rq_render = 0, rq_destroy = 0\<rparr>"]
    a b c
  show ?thesis
    by (simp add: init_def no_options_def ops prims)
qed

text \<open>
  C9. When a pending acquisition succeeds and \<^verbatim>\<open>onRequest\<close> throws \<open>x\<close>, the \<^verbatim>\<open>catch\<close>
  block takes over: \<^verbatim>\<open>onError\<close> (if provided) is invoked with \<open>x\<close>, the update of
  \<^verbatim>\<open>released\<close> after \<^verbatim>\<open>onRequest\<close> is skipped (\<^verbatim>\<open>released\<close> keeps its value, so it is not
  set to false), and the reference holds the new sentinel, with the handler registered.
\<close>

theorem onRequest_throws:
  assumes "map_of (pending s) pid = Some (AwaitAcquire og k f)"
    and "onRequest opts = Some (Throws x)"
  shows "step opts (AcquireSettles pid (Inr rel)) s =
           s\<lparr>sentinels := sentinels s @
                 [\<lparr>wl_type = k, sentinel_released = rel, onrelease = True\<rparr>],
             current := Some (length (sentinels s)),
             listeners :=
               (if rq_render f \<in> set (map rq_render (listeners s)) then listeners s
                else listeners s @ [f]),
             pending := filter (\<lambda>p. fst p \<noteq> pid) (pending s),
             trace := trace s @
               [SetCurrent (Some (length (sentinels s))), AddListener (rq_render f), OnRequest] @
               (case onError opts of None \<Rightarrow> [] | Some c \<Rightarrow> [OnError x]) @
               [Settled og Request
                  (case onError opts of Some (Throws y) \<Rightarrow> Inl y | _ \<Rightarrow> Inr ())]\<rparr>"
  using assms by (simp add: ops prims Let_def split: option.splits callback.splits)

theorem onRequest_throws_witness:
  "map_of (pending (step no_options (CallRequest Screen) (init True))) 0
     = Some (AwaitAcquire Caller Screen \<lparr>rq_render = 0, rq_destroy = 0\<rparr>) \<and>
   onRequest (no_options\<lparr>onError := Some Returns, onRequest := Some (Throws (JsError 2))\<rparr>)
     = Some (Throws (JsError 2)) \<and>
   step (no_options\<lparr>onError := Some Returns, onRequest := Some (Throws (JsError 2))\<rparr>)
        (AcquireSettles 0 (Inr (Some False))) (step no_options (CallRequest Screen) (init True)) =
     (init True)\<lparr>
       sentinels := [\<lparr>wl_type = Screen, sentinel_released = Some False, onrelease = True\<rparr>],
       current := Some 0, listeners := [\<lparr>rq_render = 0, rq_destroy = 0\<rparr>], next_pid := 1,
       trace := [WakeLockRequest Screen, SetCurrent (Some 0), AddListener 0, OnRequest,
                 OnError (JsError 2), Settled Caller Request (Inr ())]\<rparr> \<and>
   released
     (step (no_options\<lparr>onError := Some Returns, onRequest := Some (Throws (JsError 2))\<rparr>)
        (AcquireSettles 0 (Inr (Some False))) (step no_options (CallRequest Screen) (init True)))
     = None"
proof -
  have a: "map_of (pending (step no_options (CallRequest Screen) (init True))) 0
      = Some (AwaitAcquire Caller Screen \<lparr>rq_render = 0, rq_destroy = 0\<rparr>)"
    by (simp add: init_def ops prims)
  have b: "onRequest (no_options\<lparr>onError := Some Returns, onRequest := Some (Throws (JsError 2))\<rparr>)
      = Some (Throws (JsError 2))"
    by simp
  from onRequest_throws [OF a b, of "Some False"] a b
  show ?thesis
    by (simp add: init_def no_options_def ops prims)
qed

subsection \<open>The released cell\<close>

lemma released_step: "released s \<noteq> None \<Longrightarrow> released (step opts a s) \<noteq> None"
  by (cases a)
    (auto simp: ops prims Let_def dispatch_frame
      split: option.splits awaiting.splits sum.splits callback.splits)

text \<open>
  C10. Once \<^verbatim>\<open>released\<close> is a boolean, no operation, callback or event makes it undefined
  again: every write stores a boolean.
\<close>

theorem released_stays_defined:
  "released s \<noteq> None \<Longrightarrow> released (run opts acts s) \<noteq> None"
proof (induction acts arbitrary: s)
  case Nil
  then show ?case by simp
next
  case (Cons a acts)
  from Cons.prems have "released (step opts a s) \<noteq> None"
    by (rule released_step)
  then show ?case
    using Cons.IH by simp
qed

theorem released_stays_defined_witness:
  "released held \<noteq> None \<and>
   released
     (run no_options
        [PlatformRelease 0 None 7, CallDestroy, ReleaseSettles 1 (Inl (JsError 3)), CallDestroy,
         ReleaseSettles 2 (Inr ()), CallRequest Screen, AcquireSettles 3 (Inl (JsError 1))]
        held) \<noteq> None"
proof -
  have a: "released held \<noteq> None"
    by (simp add: held_eq)
  from released_stays_defined [OF a] a show ?thesis
    by blast
qed

lemma acquired_step:
  assumes "\<forall>x. onRequest opts \<noteq> Some (Throws x)"
    and "sentinels s = [] \<or> released s \<noteq> None"
  shows "sentinels (step opts a s) = [] \<or> released (step opts a s) \<noteq> None"
  using assms
  by (cases a)
    (auto simp: ops prims Let_def dispatch_frame
      split: option.splits awaiting.splits sum.splits callback.splits)

lemma acquired_run:
  assumes "\<forall>x. onRequest opts \<noteq> Some (Throws x)"
    and "sentinels s = [] \<or> released s \<noteq> None"
  shows "sentinels (run opts acts s) = [] \<or> released (run opts acts s) \<noteq> None"
  using assms(2)
proof (induction acts arbitrary: s)
  case Nil
  then show ?case by simp
next
  case (Cons a acts)
  have "sentinels (step opts a s) = [] \<or> released (step opts a s) \<noteq> None"
    using assms(1) Cons.prems by (rule acquired_step)
  then show ?case
    using Cons.IH by simp
qed

text \<open>
  C4 (as amended). In every state the controller reaches, \<^verbatim>\<open>released\<close> is undefined only
  if the platform has not yet handed out a sentinel, that is, no acquisition has succeeded
  (or the caller's \<^verbatim>\<open>onRequest\<close> throws, which skips the update); a request attempt whose
  acquisition fails leaves \<^verbatim>\<open>released\<close> as it was.
\<close>

theorem unknown_only_before_acquisition:
  assumes "released (run opts acts (init supported)) = None"
  shows "sentinels (run opts acts (init supported)) = [] \<or>
         (\<exists>x. onRequest opts = Some (Throws x))"
proof (cases "\<exists>x. onRequest opts = Some (Throws x)")
  case True
  then show ?thesis by simp
next
  case False
  then have "\<forall>x. onRequest opts \<noteq> Some (Throws x)"
    by simp
  moreover have "sentinels (init supported) = [] \<or> released (init supported) \<noteq> None"
    by (simp add: init_def)
  ultimately have "sentinels (run opts acts (init supported)) = [] \<or>
      released (run opts acts (init supported)) \<noteq> None"
    by (rule acquired_run)
  with assms show ?thesis
    by simp
qed

theorem unknown_only_before_acquisition_witness:
  "released (run no_options [CallRequest Screen, AcquireSettles 0 (Inl (JsError 1))] (init True))
     = None \<and>
   sentinels (run no_options [CallRequest Screen, AcquireSettles 0 (Inl (JsError 1))] (init True))
     = []"
proof -
  have a: "released
      (run no_options [CallRequest Screen, AcquireSettles 0 (Inl (JsError 1))] (init True)) = None"
    by (simp add: init_def no_options_def ops prims)
  from unknown_only_before_acquisition [OF a] a show ?thesis
    by (simp add: no_options_def)
qed

text \<open>C4 as stated fails: a request attempt has been made and has failed, and
  \<^verbatim>\<open>released\<close> is still undefined.\<close>

theorem unknown_after_failed_attempt:
  "trace (run no_options [CallRequest Screen, AcquireSettles 0 (Inl (JsError 1))] (init True))
     = [WakeLockRequest Screen, Settled Caller Request (Inr ())] \<and>
   released (run no_options [CallRequest Screen, AcquireSettles 0 (Inl (JsError 1))] (init True))
     = None"
  by (simp add: init_def no_options_def ops prims)

subsection \<open>What reaches the caller\<close>

lemma rejection_step:
  assumes "Settled og opn (Inl e) \<in> set (trace (step opts a s))"
  shows "Settled og opn (Inl e) \<in> set (trace s) \<or>
         (opn = Request \<and> onError opts = Some (Throws e)) \<or>
         (opn = Destroy \<and> onDestroy opts = Some (Throws e)) \<or>
         (opn \<noteq> Request \<and> (\<exists>pid. a = ReleaseSettles pid (Inl e)))"
proof (cases a)
  case (VisibilityChange v)
  with assms show ?thesis
    by (auto dest: dispatch_no_rejection)
next
  case (CallRequest k)
  with assms show ?thesis
    by (auto dest: request_call_no_rejection)
qed (use assms in \<open>auto simp: ops prims Let_def
      split: option.splits awaiting.splits sum.splits callback.splits if_splits\<close>)

lemma rejection_run:
  assumes "Settled og opn (Inl e) \<in> set (trace (run opts acts s))"
  shows "Settled og opn (Inl e) \<in> set (trace s) \<or>
         (opn = Request \<and> onError opts = Some (Throws e)) \<or>
         (opn = Destroy \<and> onDestroy opts = Some (Throws e)) \<or>
         (opn \<noteq> Request \<and> (\<exists>pid. ReleaseSettles pid (Inl e) \<in> set acts))"
  using assms
proof (induction acts arbitrary: s)
  case Nil
  then show ?case by simp
next
  case (Cons a acts)
  from Cons.prems
  have "Settled og opn (Inl e) \<in> set (trace (run opts acts (step opts a s)))"
    by simp
  from Cons.IH [OF this] consider
      (old) "Settled og opn (Inl e) \<in> set (trace (step opts a s))"
    | (cb) "(opn = Request \<and> onError opts = Some (Throws e)) \<or>
            (opn = Destroy \<and> onDestroy opts = Some (Throws e))"
    | (later) "opn \<noteq> Request \<and> (\<exists>pid. ReleaseSettles pid (Inl e) \<in> set acts)"
    by blast
  then show ?case
  proof cases
    case old
    from rejection_step [OF old] show ?thesis
      by auto
  next
    case cb
    then show ?thesis by blast
  next
    case later
    then show ?thesis by auto
  qed
qed

lemma unsupported_absorbed:
  assumes "\<not> isSupported s"
  shows "step opts (CallRequest k) s =
           s\<lparr>trace := trace s @ [Warn RequestUnsupported, Settled Caller Request (Inr ())]\<rparr>"
    and "step opts CallRelease s =
           s\<lparr>trace := trace s @ [Warn ReleaseUnsupported, Settled Caller Release (Inr ())]\<rparr>"
    and "step opts CallDestroy s =
           s\<lparr>trace := trace s @ [Warn DestroyUnsupported, Settled Caller Destroy (Inr ())]\<rparr>"
  using assms by (simp_all add: ops prims)

lemma misuse_absorbed:
  assumes "isSupported s" and "current s = None"
  shows "step opts CallRelease s =
           s\<lparr>trace := trace s @ [Warn ReleaseBeforeRequest, Settled Caller Release (Inr ())]\<rparr>"
    and "step opts CallDestroy s =
           s\<lparr>trace := trace s @ [Warn DestroyBeforeRequest, Settled Caller Destroy (Inr ())]\<rparr>"
  using assms by (simp_all add: ops prims)

lemma acquire_rejection_absorbed:
  assumes "map_of (pending s) pid = Some (AwaitAcquire og k f)"
  shows "step opts (AcquireSettles pid (Inl e)) s =
           s\<lparr>pending := filter (\<lambda>p. fst p \<noteq> pid) (pending s),
             trace := trace s @
               (case onError opts of None \<Rightarrow> [] | Some c \<Rightarrow> [OnError e]) @
               [Settled og Request
                  (case onError opts of Some (Throws x) \<Rightarrow> Inl x | _ \<Rightarrow> Inr ())]\<rparr>"
  using assms by (simp add: ops prims split: option.splits callback.splits)

lemma release_rejection_passed_on:
  shows "map_of (pending s) pid = Some (AwaitRelease og) \<Longrightarrow>
           step opts (ReleaseSettles pid (Inl e)) s =
             s\<lparr>pending := filter (\<lambda>p. fst p \<noteq> pid) (pending s),
               trace := trace s @ [Settled og Release (Inl e)]\<rparr>"
    and "map_of (pending s) pid = Some (AwaitDestroy og d) \<Longrightarrow>
           step opts (ReleaseSettles pid (Inl e)) s =
             s\<lparr>pending := filter (\<lambda>p. fst p \<noteq> pid) (pending s),
               trace := trace s @ [Settled og Destroy (Inl e)]\<rparr>"
  by (simp_all add: ops prims)

text \<open>
  C3 (as amended). No operation throws when called. With the capability absent, each
  operation logs its warning, changes nothing else and its promise fulfils; so do
  \<^verbatim>\<open>release\<close> and \<^verbatim>\<open>destroy\<close> called with no sentinel held. A rejecting acquire is absorbed:
  \<^verbatim>\<open>onError\<close> (if provided) is invoked and the promise of \<^verbatim>\<open>request\<close> fulfils, unless
  \<^verbatim>\<open>onError\<close> itself throws. A rejecting \<^verbatim>\<open>release()\<close> of the sentinel is not absorbed:
  the promise of \<^verbatim>\<open>release\<close> or \<^verbatim>\<open>destroy\<close> rejects with that error, and nothing else
  happens. In every run, these and the exceptions of the caller's own callbacks
  (\<^verbatim>\<open>onError\<close> for \<^verbatim>\<open>request\<close>, \<^verbatim>\<open>onDestroy\<close> for \<^verbatim>\<open>destroy\<close>) are the only rejections.
\<close>

theorem rejections_characterised:
  "(\<not> isSupported sa \<longrightarrow>
      step opts (CallRequest k) sa =
        sa\<lparr>trace := trace sa @ [Warn RequestUnsupported, Settled Caller Request (Inr ())]\<rparr> \<and>
      step opts CallRelease sa =
        sa\<lparr>trace := trace sa @ [Warn ReleaseUnsupported, Settled Caller Release (Inr ())]\<rparr> \<and>
      step opts CallDestroy sa =
        sa\<lparr>trace := trace sa @ [Warn DestroyUnsupported, Settled Caller Destroy (Inr ())]\<rparr>) \<and>
   (isSupported sb \<and> current sb = None \<longrightarrow>
      step opts CallRelease sb =
        sb\<lparr>trace := trace sb @ [Warn ReleaseBeforeRequest, Settled Caller Release (Inr ())]\<rparr> \<and>
      step opts CallDestroy sb =
        sb\<lparr>trace := trace sb @ [Warn DestroyBeforeRequest, Settled Caller Destroy (Inr ())]\<rparr>) \<and>
   (map_of (pending sc) pc = Some (AwaitAcquire ogc kc fc) \<longrightarrow>
      step opts (AcquireSettles pc (Inl ec)) sc =
        sc\<lparr>pending := filter (\<lambda>p. fst p \<noteq> pc) (pending sc),
           trace := trace sc @
             (case onError opts of None \<Rightarrow> [] | Some c \<Rightarrow> [OnError ec]) @
             [Settled ogc Request
                (case onError opts of Some (Throws x) \<Rightarrow> Inl x | _ \<Rightarrow> Inr ())]\<rparr>) \<and>
   (map_of (pending sd) pd = Some (AwaitRelease ogd) \<longrightarrow>
      step opts (ReleaseSettles pd (Inl ed)) sd =
        sd\<lparr>pending := filter (\<lambda>p. fst p \<noteq> pd) (pending sd),
           trace := trace sd @ [Settled ogd Release (Inl ed)]\<rparr>) \<and>
   (map_of (pending se) pe = Some (AwaitDestroy oge de) \<longrightarrow>
      step opts (ReleaseSettles pe (Inl ee)) se =
        se\<lparr>pending := filter (\<lambda>p. fst p \<noteq> pe) (pending se),
           trace := trace se @ [Settled oge Destroy (Inl ee)]\<rparr>) \<and>
   (Settled og opn (Inl e) \<in> set (trace (run opts acts (init supported))) \<longrightarrow>
      (opn = Request \<and> onError opts = Some (Throws e)) \<or>
      (opn = Destroy \<and> onDestroy opts = Some (Throws e)) \<or>
      (opn \<noteq> Request \<and> (\<exists>pid. ReleaseSettles pid (Inl e) \<in> set acts)))"
proof (intro conjI impI)
  assume "Settled og opn (Inl e) \<in> set (trace (run opts acts (init supported)))"
  from rejection_run [OF this]
  show "(opn = Request \<and> onError opts = Some (Throws e)) \<or>
      (opn = Destroy \<and> onDestroy opts = Some (Throws e)) \<or>
      (opn \<noteq> Request \<and> (\<exists>pid. ReleaseSettles pid (Inl e) \<in> set acts))"
    by (simp add: init_def)
qed (simp_all add: unsupported_absorbed misuse_absorbed acquire_rejection_absorbed
    release_rejection_passed_on del: step.simps)

theorem rejections_characterised_witness:
  "\<not> isSupported (init False) \<and>
   step no_options (CallRequest Screen) (init False) =
     (init False)\<lparr>trace := [Warn RequestUnsupported, Settled Caller Request (Inr ())]\<rparr> \<and>
   step no_options CallRelease (init False) =
     (init False)\<lparr>trace := [Warn ReleaseUnsupported, Settled Caller Release (Inr ())]\<rparr> \<and>
   step no_options CallDestroy (init False) =
     (init False)\<lparr>trace := [Warn DestroyUnsupported, Settled Caller Destroy (Inr ())]\<rparr> \<and>
   isSupported (init True) \<and> current (init True) = None \<and>
   step no_options CallRelease (init True) =
     (init True)\<lparr>trace := [Warn ReleaseBeforeRequest, Settled Caller Release (Inr ())]\<rparr> \<and>
   step no_options CallDestroy (init True) =
     (init True)\<lparr>trace := [Warn DestroyBeforeRequest, Settled Caller Destroy (Inr ())]\<rparr> \<and>
   map_of (pending (step no_options (CallRequest Screen) (init True))) 0 =
     Some (AwaitAcquire Caller Screen \<lparr>rq_render = 0, rq_destroy = 0\<rparr>) \<and>
   trace (step no_options (AcquireSettles 0 (Inl (JsError 1)))
            (step no_options (CallRequest Screen) (init True))) =
     [WakeLockRequest Screen, Settled Caller Request (Inr ())] \<and>
   map_of (pending (step no_options CallRelease held)) 1 = Some (AwaitRelease Caller) \<and>
   trace (step no_options (ReleaseSettles 1 (Inl (JsError 3))) (step no_options CallRelease held)) =
     trace held @ [SentinelRelease 0, Settled Caller Release (Inl (JsError 3))] \<and>
   map_of (pending (step no_options CallDestroy held)) 1 = Some (AwaitDestroy Caller 0) \<and>
   step no_options (ReleaseSettles 1 (Inl (JsError 3))) (step no_options CallDestroy held) =
     held\<lparr>next_pid := 2,
          trace := trace held @ [SentinelRelease 0, Settled Caller Destroy (Inl (JsError 3))]\<rparr> \<and>
   Settled Caller Destroy (Inl (JsError 3)) \<in>
     set (trace (run no_options
       [CallRequest Screen, AcquireSettles 0 (Inr (Some False)), CallDestroy,
        ReleaseSettles 1 (Inl (JsError 3))] (init True))) \<and>
   (\<exists>pid. ReleaseSettles pid (Inl (JsError 3)) \<in>
      set [CallRequest Screen, AcquireSettles 0 (Inr (Some False)), CallDestroy,
           ReleaseSettles 1 (Inl (JsError 3))])"
proof -
  have a: "\<not> isSupported (init False)"
    and b: "isSupported (init True) \<and> current (init True) = None"
    by (simp_all add: init_def)
  have c: "map_of (pending (step no_options (CallRequest Screen) (init True))) 0 =
      Some (AwaitAcquire Caller Screen \<lparr>rq_render = 0, rq_destroy = 0\<rparr>)"
    by (simp add: init_def ops prims)
  have d: "map_of (pending (step no_options CallRelease held)) 1 = Some (AwaitRelease Caller)"
    and e: "map_of (pending (step no_options CallDestroy held)) 1 = Some (AwaitDestroy Caller 0)"
    by (simp_all add: held_eq ops prims)
  have f: "Settled Caller Destroy (Inl (JsError 3)) \<in>
     set (trace (run no_options
       [CallRequest Screen, AcquireSettles 0 (Inr (Some False)), CallDestroy,
        ReleaseSettles 1 (Inl (JsError 3))] (init True)))"
    by (simp add: init_def no_options_def ops prims)
  from rejections_characterised
    [where sa = "init False" and opts = no_options and k = Screen and sb = "init True"
       and sc = "step no_options (CallRequest Screen) (init True)" and pc = 0 and ogc = Caller
       and kc = Screen and fc = "\<lparr>rq_render = 0, rq_destroy = 0\<rparr>" and ec = "JsError 1"
       and sd = "step no_options CallRelease held" and pd = 1 and ogd = Caller
       and ed = "JsError 3"
       and se = "step no_options CallDestroy held" and pe = 1 and oge = Caller and de = 0
       and ee = "JsError 3"
       and og = Caller and opn = Destroy and e = "JsError 3"
       and acts = "[CallRequest Screen, AcquireSettles 0 (Inr (Some False)), CallDestroy,
          ReleaseSettles 1 (Inl (JsError 3))]" and supported = True]
    a b c d e f
  show ?thesis
    by (simp add: held_eq init_def no_options_def ops prims)
qed

text \<open>C3 as stated fails: a sentinel is held, \<^verbatim>\<open>release\<close> is called, the sentinel's
  \<^verbatim>\<open>release()\<close> rejects, and the promise \<^verbatim>\<open>release\<close> returned to the caller rejects.\<close>

theorem release_rejection_propagates:
  "trace (run no_options [CallRelease, ReleaseSettles 1 (Inl (JsError 3))] held) =
     trace held @ [SentinelRelease 0, Settled Caller Release (Inl (JsError 3))]"
  by (simp add: held_eq no_options_def ops prims)

subsection \<open>The visibility handler\<close>

text \<open>With one handler registered, a visibility change makes one call of \<^verbatim>\<open>request\<close> with
  the default kind (the old sentinel's \<^verbatim>\<open>release()\<close>, then the acquisition) exactly when
  the document is visible, a sentinel is referenced and its \<^verbatim>\<open>released\<close> field reads
  true, and otherwise changes nothing.\<close>

lemma one_listener_reacquires:
  assumes "listeners s = [f]" and "isSupported s"
  shows "current s = Some h \<Longrightarrow>
           step opts (VisibilityChange v) s =
             (if v = Visible \<and> current_released s = Some True
              then s\<lparr>visibilityState := v,
                     pending := (Suc (next_pid s), AwaitAcquire Internal Screen f) #
                                (next_pid s, AwaitDestroy Internal (rq_destroy f)) # pending s,
                     next_pid := Suc (Suc (next_pid s)),
                     trace := trace s @ [SentinelRelease h, WakeLockRequest Screen]\<rparr>
              else s\<lparr>visibilityState := v\<rparr>)"
    and "current s = None \<Longrightarrow> step opts (VisibilityChange v) s = s\<lparr>visibilityState := v\<rparr>"
  using assms by (auto simp: ops prims Let_def)



subsection \<open>request while a sentinel is held\<close>

text \<open>What \<^verbatim>\<open>request\<close> has done when it suspends, if a sentinel is held: the old sentinel's
  \<^verbatim>\<open>release()\<close> and the new acquisition have both been started, and nothing is torn down.\<close>

lemma request_call_while_held:
  assumes "isSupported s" and "current s = Some h"
  shows "request_call og k f s =
           s\<lparr>pending := (Suc (next_pid s), AwaitAcquire og k f) #
                          (next_pid s, AwaitDestroy Internal (rq_destroy f)) # pending s,
             next_pid := Suc (Suc (next_pid s)),
             trace := trace s @ [SentinelRelease h, WakeLockRequest k]\<rparr>"
  using assms by (simp add: ops prims)

text \<open>
  C1 (the code at the failing input). \<^verbatim>\<open>request\<close> is called while sentinel 0 is held.
  When the call suspends, the new acquisition has been started and the teardown of
  sentinel 0 has not run: the reference still holds it and the listener is registered.
  If the platform then answers the acquisition before it fulfils the old \<^verbatim>\<open>release()\<close>,
  the teardown runs after the new sentinel 1 is stored: it clears the reference and removes
  the listener, and the controller ends with no sentinel referenced while sentinel 1 is
  not released. If the platform fulfils the old \<^verbatim>\<open>release()\<close> first, sentinel 1 stays.
\<close>

theorem request_while_held_overlaps:
  "trace (step no_options (CallRequest Screen) held) =
     trace held @ [SentinelRelease 0, WakeLockRequest Screen] \<and>
   current (step no_options (CallRequest Screen) held) = Some 0 \<and>
   listeners (step no_options (CallRequest Screen) held) = [\<lparr>rq_render = 0, rq_destroy = 0\<rparr>] \<and>
   trace (run no_options
            [CallRequest Screen, AcquireSettles 2 (Inr (Some False)), ReleaseSettles 1 (Inr ())]
            held) =
     trace held @
       [SentinelRelease 0, WakeLockRequest Screen,
        SetCurrent (Some 1), AddListener 0, SetReleased False, Settled Caller Request (Inr ()),
        RemoveListener 0, SetCurrent None, Settled Internal Destroy (Inr ())] \<and>
   current (run no_options
              [CallRequest Screen, AcquireSettles 2 (Inr (Some False)), ReleaseSettles 1 (Inr ())]
              held) = None \<and>
   listeners (run no_options
              [CallRequest Screen, AcquireSettles 2 (Inr (Some False)), ReleaseSettles 1 (Inr ())]
              held) = [] \<and>
   map sentinel_released (sentinels (run no_options
              [CallRequest Screen, AcquireSettles 2 (Inr (Some False)), ReleaseSettles 1 (Inr ())]
              held)) = [Some False, Some False] \<and>
   current (run no_options
              [CallRequest Screen, ReleaseSettles 1 (Inr ()), AcquireSettles 2 (Inr (Some False))]
              held) = Some 1"
  by (simp add: held_eq no_options_def ops prims)

end
